theory Spec2Isabelle
  imports Complex_Main "HOL-Library.Multiset" "HOL-Library.Sublist"
begin

section \<open>Bulk e-mail dispatch over Microsoft Graph (src/graph\_mail.py)\<close>


text \<open>The error strings stored under the key \<^verbatim>\<open>'error'\<close> of a failed entry.\<close>

datatype send_error =
    ConfigIncomplete               \<comment> \<open>\<^verbatim>\<open>'Configuracion incompleta'\<close>\<close>
  | NoAccessToken                  \<comment> \<open>\<^verbatim>\<open>'No se pudo obtener token de acceso'\<close> (bulk)\<close>
  | NoToken                        \<comment> \<open>\<^verbatim>\<open>'No se pudo obtener token'\<close> (batch)\<close>
  | HttpError nat string           \<comment> \<open>\<^verbatim>\<open>f"HTTP {status}: {text[:200]}"\<close>\<close>
  | ConnectionFailed string        \<comment> \<open>\<^verbatim>\<open>f"Error de conexion: {e}"\<close>\<close>
  | ItemError "string option" int  \<comment> \<open>the \<^verbatim>\<open>error.message\<close> of a batch item, or \<^verbatim>\<open>f"HTTP {status}"\<close>\<close>
  | BatchFailed nat string         \<comment> \<open>\<^verbatim>\<open>f"Batch fallo: HTTP {status} - {text[:200]}"\<close>\<close>
  | BatchConnectionFailed string   \<comment> \<open>\<^verbatim>\<open>f"Error de conexion en batch: {e}"\<close>\<close>


text \<open>One request of a \<^verbatim>\<open>$batch\<close> payload: its id and the address it mails.\<close>

record batch_request =
  req_id :: int
  req_to :: string



datatype event =
    Progress nat nat string       \<comment> \<open>\<^verbatim>\<open>progress_callback(idx, total, receiver_email)\<close>\<close>
  | SendMail string               \<comment> \<open>POST \<^verbatim>\<open>/users/{sender}/sendMail\<close> for one receiver\<close>
  | PostBatch "batch_request list" \<comment> \<open>POST \<^verbatim>\<open>/$batch\<close>\<close>
  | Sleep rat                     \<comment> \<open>\<^verbatim>\<open>time.sleep(seconds)\<close>\<close>


text \<open>The three lists the loops append to.\<close>

record dispatch_state =
  ok_list :: "string list"
  ko_list :: "(string \<times> send_error) list"
  trace :: "event list"







subsection \<open>\<^verbatim>\<open>send_mail_graph_bulk\<close>: one request per receiver\<close>




subsection \<open>\<^verbatim>\<open>send_mail_graph_batch\<close>: up to \<open>batch_size\<close> requests per POST\<close>
















subsection \<open>Reading results and traces\<close>


definition accounted :: "dispatch_state \<Rightarrow> string multiset" where
  "accounted st = mset (ok_list st) + mset (map fst (ko_list st))"



fun is_progress :: "event \<Rightarrow> bool" where
  "is_progress (Progress i n r) = True"
| "is_progress e = False"

definition without_progress :: "event list \<Rightarrow> event list" where
  "without_progress es = filter (\<lambda>e. \<not> is_progress e) es"









section \<open>The LinkedIn client (src/linkedin.py)\<close>

text \<open>
  The client's own fields, and the LinkedIn endpoints it calls. Each endpoint is a
  function from what the request carries to what \<^verbatim>\<open>requests\<close> gives back; an
  exception raised by the call or while its reply is read is a value of its own.
  Numbers that Python computes as floats are modelled by the rationals they stand for.
\<close>

record linkedin_client =
  base_url :: string
  author_urn :: string
  is_organization :: bool
  post_visibility :: string

datatype pynum = PyInt int | PyFloat rat

text \<open>\<^verbatim>\<open>needle in hay\<close> on strings.\<close>

fun py_in :: "string \<Rightarrow> string \<Rightarrow> bool" where
  "py_in needle [] = (needle = [])"
| "py_in needle (c # cs) = (prefix needle (c # cs) \<or> py_in needle cs)"

text \<open>Rounding to the nearest integer, ties to even, and \<^verbatim>\<open>round(x, 2)\<close>.\<close>

definition round_half_even :: "rat \<Rightarrow> int" where
  "round_half_even x =
     (let f = \<lfloor>x\<rfloor>; d = x - of_int f
      in if d < 1 / 2 then f
         else if 1 / 2 < d then f + 1
         else if even f then f else f + 1)"

fun py_round2 :: "pynum \<Rightarrow> pynum" where
  "py_round2 (PyInt n) = PyInt n"
| "py_round2 (PyFloat x) = PyFloat (of_int (round_half_even (x * 100)) / 100)"

subsection \<open>\<^verbatim>\<open>get_post_metrics\<close>\<close>

text \<open>
  One element of the \<^verbatim>\<open>elements\<close> array of a share-statistics reply:
  \<^verbatim>\<open>item.get('share')\<close> and the counters of \<^verbatim>\<open>totalShareStatistics\<close>, each
  read with default 0.
\<close>

record share_item =
  share :: "string option"
  impressionCount :: int
  clickCount :: int
  likeCount :: int
  commentCount :: int
  shareCount :: int

datatype stats_reply =
    StatsReply nat "share_item list"  \<comment> \<open>status code and elements\<close>
  | StatsException                    \<comment> \<open>any exception inside the \<^verbatim>\<open>try\<close>\<close>

text \<open>A row of the returned DataFrame.\<close>

record metrics_row =
  post_id :: "string option"
  impresiones :: int
  clics :: int
  likes :: int
  comentarios :: int
  compartidos :: int
  er_pct :: pynum   \<comment> \<open>column \<^verbatim>\<open>'ER%'\<close>\<close>

text \<open>
  The expression
  \<^verbatim>\<open>((lik + com + sha + cli) / imp * 100) if imp > 0 else 0\<close>, shared by
  \<^verbatim>\<open>get_post_metrics\<close> and \<^verbatim>\<open>get_post_metrics_advanced\<close>.
\<close>

definition engagement_rate :: "int \<Rightarrow> int \<Rightarrow> int \<Rightarrow> int \<Rightarrow> int \<Rightarrow> pynum" where
  "engagement_rate lik com sha cli imp =
     (if imp > 0 then PyFloat (of_int (lik + com + sha + cli) / of_int imp * 100)
      else PyInt 0)"

definition metrics_of_item :: "share_item \<Rightarrow> metrics_row" where
  "metrics_of_item item =
     (let imp = impressionCount item; cli = clickCount item; lik = likeCount item;
          com = commentCount item; sha = shareCount item;
          er = engagement_rate lik com sha cli imp
      in \<lparr>post_id = share item, impresiones = imp, clics = cli, likes = lik,
          comentarios = com, compartidos = sha, er_pct = py_round2 er\<rparr>)"

text \<open>
  The argument \<^verbatim>\<open>post_ids\<close>: \<^verbatim>\<open>None\<close>, one string, or a list of strings.
\<close>

datatype post_ids_arg = NoIds | OneId string | IdList "string list"

fun falsy_ids :: "post_ids_arg \<Rightarrow> bool" where
  "falsy_ids NoIds = True"
| "falsy_ids (OneId s) = (s = [])"
| "falsy_ids (IdList ids) = (ids = [])"

fun as_list :: "post_ids_arg \<Rightarrow> string list" where
  "as_list NoIds = []"
| "as_list (OneId s) = [s]"
| "as_list (IdList ids) = ids"

definition is_share :: "string \<Rightarrow> bool" where
  "is_share pid = py_in ''urn:li:share:'' pid"

text \<open>
  \<^verbatim>\<open>get_post_metrics\<close>. The statistics endpoint is a function of the ids put into
  the \<^verbatim>\<open>shares=List(...)\<close> parameter; the model returns, next to the DataFrame
  (\<open>None\<close> for Python's \<^verbatim>\<open>None\<close>), the id lists it has queried.
\<close>

definition get_post_metrics ::
  "(string list \<Rightarrow> stats_reply) \<Rightarrow> post_ids_arg \<Rightarrow> metrics_row list option \<times> string list list" where
  "get_post_metrics share_statistics post_ids =
     (if falsy_ids post_ids then (None, [])
      else
        let valid_post_ids = filter is_share (as_list post_ids)
        in if valid_post_ids = [] then (None, [])
           else
             let valid_post_ids = take 20 valid_post_ids
             in (case share_statistics valid_post_ids of
                   StatsReply status elements \<Rightarrow>
                     if status = 200 then (Some (map metrics_of_item elements), [valid_post_ids])
                     else (None, [valid_post_ids])
                 | StatsException \<Rightarrow> (None, [valid_post_ids])))"

subsection \<open>\<^verbatim>\<open>get_post_metrics_advanced\<close>\<close>














text \<open>Two replies used as examples.\<close>

definition sample_item :: share_item where
  "sample_item = \<lparr>share = Some ''urn:li:share:7001'', impressionCount = 1000, clickCount = 1,
                   likeCount = 3, commentCount = 1, shareCount = 0\<rparr>"

definition unseen_item :: share_item where
  "unseen_item = \<lparr>share = Some ''urn:li:share:7002'', impressionCount = 0, clickCount = 2,
                   likeCount = 3, commentCount = 1, shareCount = 0\<rparr>"

definition sample_statistics :: "string list \<Rightarrow> stats_reply" where
  "sample_statistics ids = StatsReply 200 [sample_item, unseen_item]"


subsection \<open>\<^verbatim>\<open>LinkedInClient.post\<close>\<close>

datatype li_error = HTTPError nat | FileNotFoundError | OtherError

text \<open>
  The three calls \<^verbatim>\<open>post\<close> makes: \<^verbatim>\<open>_register_asset\<close> (the \<open>n\<close>-th
  registration of the run gives an asset URN and an upload URL), \<^verbatim>\<open>_upload_file\<close>
  (upload URL and path) and the final POST to \<^verbatim>\<open>ugcPosts\<close>. Each either
  succeeds or raises, and what it raises leaves \<^verbatim>\<open>post\<close>.
\<close>

record ugc_payload =
  author :: string
  lifecycleState :: string
  shareCommentary :: string
  shareMediaCategory :: string
  media :: "(string \<times> string) list option"
    \<comment> \<open>\<open>None\<close>: no \<^verbatim>\<open>"media"\<close> key; an entry is its status and its asset URN\<close>
  visibility :: string

record linkedin_env =
  register_asset :: "nat \<Rightarrow> bool \<Rightarrow> li_error + string \<times> string"
  upload_file :: "string \<Rightarrow> string \<Rightarrow> li_error option"
  create_post :: "ugc_payload \<Rightarrow> li_error + string"

datatype li_event =
    RegisterAsset bool          \<comment> \<open>\<^verbatim>\<open>_register_asset(is_video)\<close>\<close>
  | UploadFile string string    \<comment> \<open>\<^verbatim>\<open>_upload_file(upload_url, path)\<close>\<close>
  | CreatePost ugc_payload      \<comment> \<open>POST \<^verbatim>\<open>/v2/ugcPosts\<close>\<close>

text \<open>Register one asset and upload one file; \<open>n\<close> counts the registrations so far.\<close>

definition register_and_upload ::
  "linkedin_env \<Rightarrow> nat \<Rightarrow> bool \<Rightarrow> string \<Rightarrow> (li_error + string) \<times> li_event list" where
  "register_and_upload env n is_video path =
     (case register_asset env n is_video of
        Inl e \<Rightarrow> (Inl e, [RegisterAsset is_video])
      | Inr (asset_urn, upload_url) \<Rightarrow>
          (case upload_file env upload_url path of
             Some e \<Rightarrow> (Inl e, [RegisterAsset is_video, UploadFile upload_url path])
           | None \<Rightarrow> (Inr asset_urn, [RegisterAsset is_video, UploadFile upload_url path])))"

text \<open>The loop \<^verbatim>\<open>for path in image_paths\<close>, collecting \<^verbatim>\<open>asset_urns\<close>.\<close>

fun upload_images ::
  "linkedin_env \<Rightarrow> nat \<Rightarrow> string list \<Rightarrow> (li_error + string list) \<times> li_event list" where
  "upload_images env n [] = (Inr [], [])"
| "upload_images env n (path # paths) =
     (case register_and_upload env n False path of
        (Inl e, evs) \<Rightarrow> (Inl e, evs)
      | (Inr asset_urn, evs) \<Rightarrow>
          (case upload_images env (Suc n) paths of
             (Inl e, evs') \<Rightarrow> (Inl e, evs @ evs')
           | (Inr asset_urns, evs') \<Rightarrow> (Inr (asset_urn # asset_urns), evs @ evs')))"

text \<open>Truthiness of the two optional arguments.\<close>

fun truthy_path :: "string option \<Rightarrow> bool" where
  "truthy_path None = False"
| "truthy_path (Some v) = (v \<noteq> [])"

fun truthy_paths :: "string list option \<Rightarrow> bool" where
  "truthy_paths None = False"
| "truthy_paths (Some ps) = (ps \<noteq> [])"

text \<open>The first part of \<^verbatim>\<open>post\<close>: \<^verbatim>\<open>media_category\<close> and \<^verbatim>\<open>media_list\<close>.\<close>

definition post_media ::
  "linkedin_env \<Rightarrow> string list option \<Rightarrow> string option
     \<Rightarrow> (li_error + string \<times> (string \<times> string) list) \<times> li_event list" where
  "post_media env image_paths video_path =
     (if truthy_path video_path then
        (case register_and_upload env 0 True (the video_path) of
           (Inl e, evs) \<Rightarrow> (Inl e, evs)
         | (Inr asset_urn, evs) \<Rightarrow> (Inr (''VIDEO'', [(''READY'', asset_urn)]), evs))
      else if truthy_paths image_paths then
        (case upload_images env 0 (the image_paths) of
           (Inl e, evs) \<Rightarrow> (Inl e, evs)
         | (Inr asset_urns, evs) \<Rightarrow>
             (Inr (''IMAGE'', map (\<lambda>urn. (''READY'', urn)) asset_urns), evs))
      else (Inr (''NONE'', []), []))"

definition build_payload ::
  "linkedin_client \<Rightarrow> string \<Rightarrow> string \<Rightarrow> (string \<times> string) list \<Rightarrow> ugc_payload" where
  "build_payload client text_body media_category media_list =
     \<lparr>author = author_urn client, lifecycleState = ''PUBLISHED'',
      shareCommentary = text_body, shareMediaCategory = media_category,
      media = (if media_list \<noteq> [] then Some media_list else None),
      visibility = (if is_organization client \<and> post_visibility client = ''PUBLIC''
                    then ''PUBLIC'' else post_visibility client)\<rparr>"

text \<open>
  \<^verbatim>\<open>post\<close>: the JSON of the reply, or the exception that left the method, and the
  calls made.
\<close>

definition post ::
  "linkedin_env \<Rightarrow> linkedin_client \<Rightarrow> string \<Rightarrow> string list option \<Rightarrow> string option
     \<Rightarrow> (li_error + string) \<times> li_event list" where
  "post env client text_body image_paths video_path =
     (case post_media env image_paths video_path of
        (Inl e, evs) \<Rightarrow> (Inl e, evs)
      | (Inr (media_category, media_list), evs) \<Rightarrow>
          (let payload = build_payload client text_body media_category media_list
           in (create_post env payload, evs @ [CreatePost payload])))"

text \<open>The publications of a run: the payloads sent to \<^verbatim>\<open>ugcPosts\<close>.\<close>

fun created :: "li_event list \<Rightarrow> ugc_payload list" where
  "created [] = []"
| "created (CreatePost p # es) = p # created es"
| "created (e # es) = created es"

text \<open>The asset URN handed out by the \<open>n\<close>-th registration, if it succeeds.\<close>

definition asset_of :: "linkedin_env \<Rightarrow> nat \<Rightarrow> bool \<Rightarrow> string option" where
  "asset_of env n is_video =
     (case register_asset env n is_video of Inl e \<Rightarrow> None | Inr (urn, url) \<Rightarrow> Some urn)"

text \<open>An endpoint and a client used as examples.\<close>

definition sample_linkedin :: linkedin_env where
  "sample_linkedin =
     \<lparr>register_asset = (\<lambda>n is_video.
         Inr (if is_video then ''urn:li:digitalmediaAsset:V'' else ''urn:li:digitalmediaAsset:'' @ replicate (Suc n) CHR ''I'',
              ''https://upload.example/'' @ replicate (Suc n) CHR ''u'')),
      upload_file = (\<lambda>url path. None),
      create_post = (\<lambda>p. Inr ''urn:li:share:1'')\<rparr>"

definition sample_client :: linkedin_client where
  "sample_client = \<lparr>base_url = ''https://api.linkedin.com/rest'',
                     author_urn = ''urn:li:organization:42'',
                     is_organization = True, post_visibility = ''PUBLIC''\<rparr>"

section \<open>Footer and inline images of a message (src/graph\_mail.py)\<close>

text \<open>
  In this section a string is the UTF-8 encoding of the Python string. The functions
  below search for ASCII texts, cut and concatenate; on encoded strings these give the
  encodings of what the Python gives.
\<close>

definition FOOTER_MARKER_TEXT :: string where
  "FOOTER_MARKER_TEXT = ''PIES-DE-EMAIL''"

definition FOOTER_MARKER_HTML :: string where
  "FOOTER_MARKER_HTML = ''<!-- PIES-DE-EMAIL -->''"

text \<open>
  The lines of the literal \<^verbatim>\<open>EMAIL_FOOTER\<close>, without their line ends. The
  literal opens with a line end, and every line closes with one.
\<close>

definition footer_lines :: "string list" where
  \<open>footer_lines =
     [''<br><br>'',
      ''<!-- PIES-DE-EMAIL -->'',
      ''<table'',
      ''  width="50%"'',
      ''  cellpadding="0"'',
      ''  cellspacing="0"'',
      ''  border="0"'',
      ''  align="left"'',
      ''  style="font-family: Arial, sans-serif; font-size:14px; color:#4F764D; background-color:#fafafa;"'',
      ''>'',
      ''  <tr>'',
      ''    <td style="padding:15px; vertical-align:top; width:60%;">'',
      ''      <strong style="font-size:18px; color:#234926;">Tu Nombre</strong><br>'',
      ''      <span style="color:#4F764D;">Tu Cargo</span><br>'',
      ''      <a href="mailto:tu-email@ejemplo.com" style="color:#4F764D; text-decoration:none;">tu-email@ejemplo.com</a><br>'',
      ''      <a href="https://linkedin.com/in/tu-perfil" style="color:#4F764D; text-decoration:none;">linkedin.com/in/tu-perfil</a><br><br>'',
      ''      <strong style="color:#234926;">Tu Empresa S.A.</strong><br>'',
      ''      <span style="color:#4F764D;">'',
      ''        Tu Direcci'' @ [CHR 0xC3, CHR 0xB3] @ ''n<br>'',
      ''        Tu Ciudad, PA'' @ [CHR 0xC3, CHR 0x8D] @ ''S<br>'',
      ''        <a href="https://www.tuweb.com" style="color:#4F764D; text-decoration:none;">www.tuweb.com</a><br>'',
      ''        Tlf.: +00 000 00 00 00'',
      ''      </span>'',
      ''    </td>'',
      ''    <td style="padding:15px; vertical-align:top; text-align:right; width:40%;">'',
      ''      <a href="https://www.tuweb.com" style="text-decoration:none;">'',
      ''        <img'',
      ''          src="https://via.placeholder.com/300x100?text=Logo+Empresa"'',
      ''          alt="Logo Empresa"'',
      ''          style="display:block; width: 300px; height:auto; border:0;"'',
      ''        >'',
      ''      </a>'',
      ''    </td>'',
      ''  </tr>'',
      ''  <tr>'',
      ''    <td colspan="2" style="padding:15px;">'',
      ''      <span style="font-size:11px; line-height:1.3; color:#4F764D;">'',
      ''        Este mensaje y sus archivos adjuntos van dirigidos exclusivamente a su destinatario, pudiendo contener'',
      ''        informaci'' @ [CHR 0xC3, CHR 0xB3] @ ''n confidencial sometida a secreto profesional. No est'' @ [CHR 0xC3, CHR 0xA1] @ '' permitida su reproducci'' @ [CHR 0xC3, CHR 0xB3] @ ''n o distribuci'' @ [CHR 0xC3, CHR 0xB3] @ ''n sin la'',
      ''        autorizaci'' @ [CHR 0xC3, CHR 0xB3] @ ''n expresa de la empresa. Si usted no es el destinatario final por favor elim'' @ [CHR 0xC3, CHR 0xAD] @ ''nelo e inf'' @ [CHR 0xC3, CHR 0xB3] @ ''rmenos por esta'',
      ''        v'' @ [CHR 0xC3, CHR 0xAD] @ ''a.'',
      ''      </span>'',
      ''    </td>'',
      ''  </tr>'',
      ''</table>'']\<close>

definition EMAIL_FOOTER :: string where
  "EMAIL_FOOTER = CHR 0x0A # concat (map (\<lambda>l. l @ [CHR 0x0A]) footer_lines)"

text \<open>ASCII case folding, which is all \<^verbatim>\<open>re.IGNORECASE\<close> does to \<^verbatim>\<open></body>\<close>.\<close>

definition ascii_lower :: "char \<Rightarrow> char" where
  "ascii_lower c =
     (let n = of_char c :: nat in if 65 \<le> n \<and> n \<le> 90 then char_of (n + 32) else c)"

definition at_body_close :: "string \<Rightarrow> bool" where
  "at_body_close s = (map ascii_lower (take 7 s) = ''</body>'')"

text \<open>
  \<^verbatim>\<open>re.sub(r"(</body>)", rf"{ins}\1", html, flags=re.IGNORECASE, count=1)\<close> for a
  text \<open>ins\<close> without backslash: \<open>ins\<close> goes in front of the first
  \<^verbatim>\<open></body>\<close>. \<open>None\<close> when there is none, which is when
  \<^verbatim>\<open>re.search\<close> finds nothing.
\<close>

fun insert_before_body :: "string \<Rightarrow> string \<Rightarrow> string option" where
  "insert_before_body ins [] = None"
| "insert_before_body ins (c # cs) =
     (if at_body_close (c # cs) then Some (ins @ c # cs)
      else map_option ((#) c) (insert_before_body ins cs))"

definition ensure_footer_once :: "string \<Rightarrow> string" where
  "ensure_footer_once html =
     (if py_in FOOTER_MARKER_TEXT html then html
      else case insert_before_body EMAIL_FOOTER html of
             Some with_footer \<Rightarrow> with_footer
           | None \<Rightarrow> html @ EMAIL_FOOTER)"

text \<open>\<^verbatim>\<open>s.replace(old, new, 1)\<close> for a non-empty \<open>old\<close>.\<close>

fun replace_first :: "string \<Rightarrow> string \<Rightarrow> string \<Rightarrow> string" where
  "replace_first old new [] = []"
| "replace_first old new (c # cs) =
     (if prefix old (c # cs) then new @ drop (length old) (c # cs)
      else c # replace_first old new cs)"

text \<open>
  \<^verbatim>\<open>insert_inline_images_before_footer\<close>. The tags are read by
  \<^verbatim>\<open>re.sub\<close> as a replacement template when they go in front of
  \<^verbatim>\<open></body>\<close>; tags with a backslash in them are outside the model there
  (\<open>None\<close>).
\<close>

definition insert_inline_images_before_footer :: "string \<Rightarrow> string \<Rightarrow> string option" where
  "insert_inline_images_before_footer html img_tags =
     (if img_tags = [] then Some html
      else if py_in FOOTER_MARKER_HTML html
      then Some (replace_first FOOTER_MARKER_HTML (img_tags @ FOOTER_MARKER_HTML) html)
      else case insert_before_body img_tags html of
             Some with_tags \<Rightarrow> if CHR 0x5C \<in> set img_tags then None else Some with_tags
           | None \<Rightarrow> Some (html @ img_tags))"

text \<open>
  The length in bytes of the white-space character (in the sense of
  \<^verbatim>\<open>str.isspace\<close>) a UTF-8 string starts with, 0 if it starts with none.
\<close>

definition space_width :: "nat list \<Rightarrow> nat" where
  "space_width bs =
     (case bs of
        [] \<Rightarrow> 0
      | b # rest \<Rightarrow>
          if (9 \<le> b \<and> b \<le> 13) \<or> (28 \<le> b \<and> b \<le> 32) then 1
          else if take 2 bs = [0xC2, 0x85] \<or> take 2 bs = [0xC2, 0xA0] then 2
          else if take 3 bs = [0xE1, 0x9A, 0x80] then 3
          else if take 2 bs = [0xE2, 0x80] \<and>
                  (case drop 2 bs of
                     [] \<Rightarrow> False
                   | t # others \<Rightarrow> (0x80 \<le> t \<and> t \<le> 0x8A) \<or> t = 0xA8 \<or> t = 0xA9 \<or> t = 0xAF)
               then 3
          else if take 3 bs = [0xE2, 0x81, 0x9F] \<or> take 3 bs = [0xE3, 0x80, 0x80] then 3
          else 0)"

text \<open>Whether \<^verbatim>\<open>s.strip()\<close> is empty; \<open>skip\<close> bytes are passed over first.\<close>

fun blank_from :: "nat \<Rightarrow> nat list \<Rightarrow> bool" where
  "blank_from skip [] = True"
| "blank_from skip (b # bs) =
     (if 0 < skip then blank_from (skip - 1) bs
      else 0 < space_width (b # bs) \<and> blank_from (space_width (b # bs) - 1) bs)"

definition py_blank :: "string \<Rightarrow> bool" where
  "py_blank s = blank_from 0 (map of_char s)"

text \<open>\<^verbatim>\<open>s.replace("\n", "<br>")\<close>.\<close>

definition newlines_to_br :: "string \<Rightarrow> string" where
  "newlines_to_br s = concat (map (\<lambda>c. if c = CHR 0x0A then ''<br>'' else [c]) s)"

definition ensure_html_string :: "string option \<Rightarrow> string option \<Rightarrow> string" where
  "ensure_html_string content_text content_html =
     (case content_html of
        Some h \<Rightarrow>
          if h \<noteq> [] \<and> \<not> py_blank h then h
          else ''<div>'' @ newlines_to_br (case content_text of None \<Rightarrow> [] | Some t \<Rightarrow> t) @ ''</div>''
      | None \<Rightarrow>
          ''<div>'' @ newlines_to_br (case content_text of None \<Rightarrow> [] | Some t \<Rightarrow> t) @ ''</div>'')"

text \<open>
  The body \<^verbatim>\<open>send_mail_graph\<close> puts into the message. \<open>content_html\<close> is the
  HTML left by \<^verbatim>\<open>extract_inline_preferences\<close> (the argument itself when it holds
  no preference comment), \<open>img_tags\<close> the tags made by
  \<^verbatim>\<open>build_attachments_payload\<close> (empty without inline images).
\<close>

definition message_body :: "string option \<Rightarrow> string option \<Rightarrow> string \<Rightarrow> string option" where
  "message_body content_text content_html img_tags =
     map_option ensure_footer_once
       (insert_inline_images_before_footer (ensure_html_string content_text content_html) img_tags)"

text \<open>The number of places at which \<open>needle\<close> occurs in a string.\<close>

fun occurrences :: "string \<Rightarrow> string \<Rightarrow> nat" where
  "occurrences needle [] = (if needle = [] then 1 else 0)"
| "occurrences needle (c # cs) =
     (if prefix needle (c # cs) then 1 else 0) + occurrences needle cs"

definition quoted_twice :: string where
  "quoted_twice = ''<p>Hola</p><!-- PIES-DE-EMAIL --><p>Ana</p><!-- PIES-DE-EMAIL --><p>Luis</p>''"

section \<open>Splitting a field into e-mail addresses (src/utils.py)\<close>























section \<open>Collecting metrics into the database (scripts/auto\_analytics.py)\<close>

text \<open>
  Dates and times are integers (days or seconds since an epoch).
  The two collecting functions work on an SQLAlchemy session. The session is modelled as
  a transaction over two tables: what is committed, and the working state that the
  statements of the open transaction have produced and that queries of the same session
  see. \<^verbatim>\<open>commit\<close> makes the working state the committed one,
  \<^verbatim>\<open>rollback\<close> throws it away. What can raise inside the \<^verbatim>\<open>try\<close>
  blocks (the calls to the API client, the queries, the commit) is decided by the
  environment.
\<close>

datatype 'a attempt = Raises | Returns 'a

record linkedin_metric =
  lm_post_id :: string
  lm_post_date :: "int option"
  lm_post_text :: string
  lm_post_type :: string
  lm_impresiones :: int
  lm_clics :: int
  lm_likes :: int
  lm_comentarios :: int
  lm_compartidos :: int
  lm_engagement_rate :: rat
  lm_collected_at :: int

record follower_metric =
  fm_date :: int
  fm_ganancia_organica :: int
  fm_ganancia_pagada :: int
  fm_ganancia_total :: int
  fm_collected_at :: int

record database =
  metrics_table :: "linkedin_metric list"
  followers_table :: "follower_metric list"

record db_session =
  committed :: database
  working :: database

definition session_commit :: "db_session \<Rightarrow> db_session" where
  "session_commit s = s\<lparr>committed := working s\<rparr>"

definition session_rollback :: "db_session \<Rightarrow> db_session" where
  "session_rollback s = s\<lparr>working := committed s\<rparr>"

definition session_add_metric :: "linkedin_metric \<Rightarrow> db_session \<Rightarrow> db_session" where
  "session_add_metric m s =
     s\<lparr>working := (working s)\<lparr>metrics_table := metrics_table (working s) @ [m]\<rparr>\<rparr>"

definition session_add_follower :: "follower_metric \<Rightarrow> db_session \<Rightarrow> db_session" where
  "session_add_follower f s =
     s\<lparr>working := (working s)\<lparr>followers_table := followers_table (working s) @ [f]\<rparr>\<rparr>"

text \<open>Assigning to the attributes of the first row that satisfies \<open>P\<close>.\<close>

fun update_first :: "('a \<Rightarrow> bool) \<Rightarrow> ('a \<Rightarrow> 'a) \<Rightarrow> 'a list \<Rightarrow> 'a list" where
  "update_first P f [] = []"
| "update_first P f (x # xs) = (if P x then f x # xs else x # update_first P f xs)"

definition session_update_follower ::
  "int \<Rightarrow> (follower_metric \<Rightarrow> follower_metric) \<Rightarrow> db_session \<Rightarrow> db_session" where
  "session_update_follower date f s =
     s\<lparr>working := (working s)\<lparr>followers_table :=
          update_first (\<lambda>r. fm_date r = date) f (followers_table (working s))\<rparr>\<rparr>"

text \<open>An entry of \<^verbatim>\<open>posts_data\<close>, and a row of the follower-growth DataFrame.\<close>

record post_details =
  pd_post_id :: "string option"
  pd_fecha :: string
  pd_texto_completo :: string
  pd_tipo :: string

record growth_row =
  gr_fecha :: int
  gr_ganancia_organica :: int
  gr_ganancia_pagada :: int
  gr_ganancia_total :: int

record analytics_env =
  recent_posts_details :: "nat \<Rightarrow> post_details list attempt"
    \<comment> \<open>\<^verbatim>\<open>api_client.get_recent_posts_details(count=num_posts)\<close>\<close>
  api_post_metrics :: "string option list \<Rightarrow> metrics_row list option attempt"
    \<comment> \<open>\<^verbatim>\<open>api_client.get_post_metrics(post_ids)\<close>: a DataFrame or None\<close>
  api_follower_growth :: "nat \<Rightarrow> growth_row list option attempt"
    \<comment> \<open>\<^verbatim>\<open>api_client.get_follower_growth(days=days)\<close>\<close>
  query_raises :: "nat \<Rightarrow> bool"
    \<comment> \<open>whether the query of the \<open>i\<close>-th pass through the loop raises\<close>
  commit_raises :: bool
  parse_fecha :: "string \<Rightarrow> int option"
    \<comment> \<open>\<^verbatim>\<open>dt.strptime(fecha, '%Y-%m-%d %H:%M')\<close>, \<open>None\<close> when it raises\<close>
  utcnow :: int

text \<open>
  How a \<^verbatim>\<open>try\<close> block ends: by an exception, with the session as it is then,
  or by returning a count.
\<close>

datatype body_result = Failed db_session | Done nat db_session

fun float_of :: "pynum \<Rightarrow> rat" where
  "float_of (PyInt n) = of_int n"
| "float_of (PyFloat x) = x"

text \<open>\<^verbatim>\<open>df_metrics[df_metrics['post_id'] == post_id]\<close>, first row if any.\<close>

definition metrics_for :: "metrics_row list \<Rightarrow> string option \<Rightarrow> (string \<times> metrics_row) option" where
  "metrics_for df pid =
     (case pid of
        None \<Rightarrow> None
      | Some u \<Rightarrow> map_option (Pair u) (find (\<lambda>r. post_id r = Some u) df))"

definition new_linkedin_metric ::
  "analytics_env \<Rightarrow> post_details \<Rightarrow> string \<Rightarrow> metrics_row \<Rightarrow> linkedin_metric" where
  "new_linkedin_metric env p u m =
     \<lparr>lm_post_id = u,
      lm_post_date = (if pd_fecha p \<noteq> [] then parse_fecha env (pd_fecha p) else None),
      lm_post_text = pd_texto_completo p,
      lm_post_type = pd_tipo p,
      lm_impresiones = impresiones m, lm_clics = clics m, lm_likes = likes m,
      lm_comentarios = comentarios m, lm_compartidos = compartidos m,
      lm_engagement_rate = float_of (er_pct m),
      lm_collected_at = utcnow env\<rparr>"

text \<open>The loop \<^verbatim>\<open>for post in posts_data\<close>; \<open>i\<close> counts its passes.\<close>

fun save_metrics ::
  "analytics_env \<Rightarrow> metrics_row list \<Rightarrow> nat \<Rightarrow> post_details list \<Rightarrow> nat \<Rightarrow> db_session
     \<Rightarrow> body_result" where
  "save_metrics env df i [] metrics_saved s = Done metrics_saved s"
| "save_metrics env df i (p # ps) metrics_saved s =
     (case metrics_for df (pd_post_id p) of
        None \<Rightarrow> save_metrics env df (Suc i) ps metrics_saved s
      | Some (u, m) \<Rightarrow>
          if query_raises env i then Failed s
          else save_metrics env df (Suc i) ps (Suc metrics_saved)
                 (session_add_metric (new_linkedin_metric env p u m) s))"

text \<open>\<^verbatim>\<open>session.commit()\<close> at the end of a \<^verbatim>\<open>try\<close> block.\<close>

definition commit_after :: "analytics_env \<Rightarrow> body_result \<Rightarrow> body_result" where
  "commit_after env r =
     (case r of
        Failed s \<Rightarrow> Failed s
      | Done n s \<Rightarrow> if commit_raises env then Failed s else Done n (session_commit s))"

definition metrics_try :: "analytics_env \<Rightarrow> db_session \<Rightarrow> nat \<Rightarrow> body_result" where
  "metrics_try env s num_posts =
     (case recent_posts_details env num_posts of
        Raises \<Rightarrow> Failed s
      | Returns posts_data \<Rightarrow>
          if posts_data = [] then Done 0 s
          else case api_post_metrics env (map pd_post_id posts_data) of
                 Raises \<Rightarrow> Failed s
               | Returns None \<Rightarrow> Done 0 s
               | Returns (Some df_metrics) \<Rightarrow>
                   if df_metrics = [] then Done 0 s
                   else commit_after env (save_metrics env df_metrics 0 posts_data 0 s))"

text \<open>The \<^verbatim>\<open>except Exception\<close> clause of both functions.\<close>

definition or_rollback :: "body_result \<Rightarrow> nat \<times> db_session" where
  "or_rollback r = (case r of Failed s \<Rightarrow> (0, session_rollback s) | Done n s \<Rightarrow> (n, s))"

definition collect_linkedin_metrics :: "analytics_env \<Rightarrow> db_session \<Rightarrow> nat \<Rightarrow> nat \<times> db_session" where
  "collect_linkedin_metrics env s num_posts = or_rollback (metrics_try env s num_posts)"

text \<open>The loop \<^verbatim>\<open>for _, row in df_growth.iterrows()\<close>.\<close>

fun save_growth ::
  "analytics_env \<Rightarrow> nat \<Rightarrow> growth_row list \<Rightarrow> nat \<Rightarrow> db_session \<Rightarrow> body_result" where
  "save_growth env i [] records_saved s = Done records_saved s"
| "save_growth env i (row # rows) records_saved s =
     (if query_raises env i then Failed s
      else case find (\<lambda>r. fm_date r = gr_fecha row) (followers_table (working s)) of
             Some existing \<Rightarrow>
               save_growth env (Suc i) rows records_saved
                 (session_update_follower (gr_fecha row)
                    (\<lambda>r. r\<lparr>fm_ganancia_organica := gr_ganancia_organica row,
                            fm_ganancia_pagada := gr_ganancia_pagada row,
                            fm_ganancia_total := gr_ganancia_total row,
                            fm_collected_at := utcnow env\<rparr>) s)
           | None \<Rightarrow>
               save_growth env (Suc i) rows (Suc records_saved)
                 (session_add_follower
                    \<lparr>fm_date = gr_fecha row,
                     fm_ganancia_organica = gr_ganancia_organica row,
                     fm_ganancia_pagada = gr_ganancia_pagada row,
                     fm_ganancia_total = gr_ganancia_total row,
                     fm_collected_at = utcnow env\<rparr> s))"

definition growth_try :: "analytics_env \<Rightarrow> db_session \<Rightarrow> nat \<Rightarrow> body_result" where
  "growth_try env s days =
     (case api_follower_growth env days of
        Raises \<Rightarrow> Failed s
      | Returns None \<Rightarrow> Done 0 s
      | Returns (Some df_growth) \<Rightarrow>
          if df_growth = [] then Done 0 s
          else commit_after env (save_growth env 0 df_growth 0 s))"

definition collect_follower_growth :: "analytics_env \<Rightarrow> db_session \<Rightarrow> nat \<Rightarrow> nat \<times> db_session" where
  "collect_follower_growth env s days = or_rollback (growth_try env s days)"

text \<open>Whether a \<^verbatim>\<open>try\<close> block ended by an exception.\<close>

fun failed_run :: "body_result \<Rightarrow> bool" where
  "failed_run (Failed s) = True"
| "failed_run (Done n s) = False"

text \<open>The session at the end of a \<^verbatim>\<open>try\<close> block.\<close>

fun session_of :: "body_result \<Rightarrow> db_session" where
  "session_of (Failed s) = s"
| "session_of (Done n s) = s"

text \<open>A session and an environment used as examples: the commit fails.\<close>

definition sample_session :: db_session where
  "sample_session =
     (let db = \<lparr>metrics_table = [],
                followers_table = [\<lparr>fm_date = 19000, fm_ganancia_organica = 1,
                                    fm_ganancia_pagada = 0, fm_ganancia_total = 1,
                                    fm_collected_at = 5\<rparr>]\<rparr>
      in \<lparr>committed = db, working = db\<rparr>)"

definition failing_commit_env :: analytics_env where
  "failing_commit_env =
     \<lparr>recent_posts_details = (\<lambda>n. Returns [\<lparr>pd_post_id = Some ''urn:li:share:7001'',
                 pd_fecha = ''2024-05-01 10:00'', pd_texto_completo = ''Hola'',
                 pd_tipo = ''Texto''\<rparr>]),
      api_post_metrics = (\<lambda>ids. Returns (Some [metrics_of_item sample_item])),
      api_follower_growth = (\<lambda>d. Returns (Some
                 [\<lparr>gr_fecha = 19000, gr_ganancia_organica = 4, gr_ganancia_pagada = 1,
                   gr_ganancia_total = 5\<rparr>,
                  \<lparr>gr_fecha = 19001, gr_ganancia_organica = 2, gr_ganancia_pagada = 0,
                   gr_ganancia_total = 2\<rparr>])),
      query_raises = (\<lambda>i. False),
      commit_raises = True,
      parse_fecha = (\<lambda>t. Some 19844),
      utcnow = 7\<rparr>"

section \<open>Properties of the e-mail dispatch\<close>

subsection \<open>State updates\<close>








lemma without_progress_append:
  "without_progress (es @ fs) = without_progress es @ without_progress fs"
  by (simp add: without_progress_def)

subsection \<open>The bulk loop\<close>










lemma accounted_size: "size (accounted st) = length (ok_list st) + length (ko_list st)"
  by (simp add: accounted_def)











subsection \<open>The batch loop\<close>

























subsection \<open>Results account for every receiver\<close>




subsection \<open>Batches partition the receivers\<close>






subsection \<open>One request per receiver, in order, with pauses between\<close>










section \<open>Properties of the LinkedIn client\<close>

subsection \<open>Engagement rate\<close>










subsection \<open>Which posts are queried\<close>

lemma py_in_sublist: "py_in needle s \<longleftrightarrow> sublist needle s"
  by (induction s) (auto simp: sublist_Cons_right)

lemma get_post_metrics_nothing:
  "falsy_ids ids \<or> filter is_share (as_list ids) = [] \<Longrightarrow>
     get_post_metrics stats ids = (None, [])"
  by (auto simp: get_post_metrics_def)

lemma get_post_metrics_query:
  "\<not> falsy_ids ids \<Longrightarrow> filter is_share (as_list ids) \<noteq> [] \<Longrightarrow>
     snd (get_post_metrics stats ids) = [take 20 (filter is_share (as_list ids))]"
  by (simp add: get_post_metrics_def Let_def split: stats_reply.split)

text \<open>
  Claim C9. \<^verbatim>\<open>get_post_metrics\<close> returns None, without querying, when
  \<^verbatim>\<open>post_ids\<close> is empty or none of the ids contains \<^verbatim>\<open>urn:li:share:\<close>.
  Otherwise it makes one query, for the first 20 of the ids that contain
  \<^verbatim>\<open>urn:li:share:\<close>, in their order; so every id queried is one of the ids given
  and contains that text, and no query carries more than 20.
\<close>

theorem get_post_metrics_filters_and_truncates:
  "(falsy_ids ids \<or> (\<forall>pid \<in> set (as_list ids). \<not> sublist ''urn:li:share:'' pid) \<longrightarrow>
      get_post_metrics stats ids = (None, []))
   \<and> (\<not> falsy_ids ids \<and> (\<exists>pid \<in> set (as_list ids). sublist ''urn:li:share:'' pid) \<longrightarrow>
      snd (get_post_metrics stats ids)
        = [take 20 (filter (sublist ''urn:li:share:'') (as_list ids))])
   \<and> (\<forall>q \<in> set (snd (get_post_metrics stats ids)).
        length q \<le> 20 \<and>
        (\<forall>pid \<in> set q. pid \<in> set (as_list ids) \<and> sublist ''urn:li:share:'' pid))"
proof -
  have sh: "is_share = sublist ''urn:li:share:''"
    by (rule ext) (simp add: is_share_def py_in_sublist)
  have e: "filter is_share (as_list ids) = []
             \<longleftrightarrow> (\<forall>pid \<in> set (as_list ids). \<not> sublist ''urn:li:share:'' pid)"
    by (simp add: filter_empty_conv sh)
  have 1: "falsy_ids ids \<or> (\<forall>pid \<in> set (as_list ids). \<not> sublist ''urn:li:share:'' pid) \<longrightarrow>
      get_post_metrics stats ids = (None, [])"
    using get_post_metrics_nothing [of ids stats] e by blast
  have 2: "\<not> falsy_ids ids \<and> (\<exists>pid \<in> set (as_list ids). sublist ''urn:li:share:'' pid) \<longrightarrow>
      snd (get_post_metrics stats ids)
        = [take 20 (filter (sublist ''urn:li:share:'') (as_list ids))]"
    using get_post_metrics_query [of ids stats] e unfolding sh by blast
  have 3: "\<forall>q \<in> set (snd (get_post_metrics stats ids)).
        length q \<le> 20 \<and>
        (\<forall>pid \<in> set q. pid \<in> set (as_list ids) \<and> sublist ''urn:li:share:'' pid)"
  proof (cases "falsy_ids ids \<or> filter is_share (as_list ids) = []")
    case True
    then show ?thesis by (simp add: get_post_metrics_nothing)
  next
    case False
    then have "snd (get_post_metrics stats ids) = [take 20 (filter is_share (as_list ids))]"
      by (simp add: get_post_metrics_query)
    then show ?thesis unfolding sh by (auto dest: in_set_takeD)
  qed
  from 1 2 3 show ?thesis by blast
qed

theorem get_post_metrics_filters_and_truncates_witness:
  "\<not> falsy_ids (IdList [''urn:li:share:7001'', ''urn:li:ugcPost:5'', ''urn:li:share:7002''])
   \<and> (\<exists>pid \<in> set (as_list (IdList [''urn:li:share:7001'', ''urn:li:ugcPost:5'', ''urn:li:share:7002''])).
         sublist ''urn:li:share:'' pid)
   \<and> snd (get_post_metrics sample_statistics
            (IdList [''urn:li:share:7001'', ''urn:li:ugcPost:5'', ''urn:li:share:7002'']))
       = [take 20 (filter (sublist ''urn:li:share:'')
            (as_list (IdList [''urn:li:share:7001'', ''urn:li:ugcPost:5'', ''urn:li:share:7002''])))]
   \<and> snd (get_post_metrics sample_statistics
            (IdList [''urn:li:share:7001'', ''urn:li:ugcPost:5'', ''urn:li:share:7002'']))
       = [[''urn:li:share:7001'', ''urn:li:share:7002'']]
   \<and> filter (sublist ''urn:li:share:'') (as_list (OneId ''urn:li:ugcPost:5'')) = []
   \<and> get_post_metrics sample_statistics (OneId ''urn:li:ugcPost:5'') = (None, [])"
proof -
  let ?ids = "IdList [''urn:li:share:7001'', ''urn:li:ugcPost:5'', ''urn:li:share:7002'']"
  have q: "snd (get_post_metrics sample_statistics ?ids)
             = [[''urn:li:share:7001'', ''urn:li:share:7002'']]"
    by code_simp
  have f: "\<not> falsy_ids ?ids" by simp
  have "\<exists>pid \<in> set (as_list ?ids). py_in ''urn:li:share:'' pid" by code_simp
  then have ex: "\<exists>pid \<in> set (as_list ?ids). sublist ''urn:li:share:'' pid"
    unfolding py_in_sublist .
  have "\<forall>pid \<in> set (as_list (OneId ''urn:li:ugcPost:5'')). \<not> py_in ''urn:li:share:'' pid"
    by code_simp
  then have n: "\<forall>pid \<in> set (as_list (OneId ''urn:li:ugcPost:5'')).
                  \<not> sublist ''urn:li:share:'' pid"
    unfolding py_in_sublist .
  from n have n': "filter (sublist ''urn:li:share:'') (as_list (OneId ''urn:li:ugcPost:5'')) = []"
    by (simp only: filter_empty_conv) 
  note t1 = get_post_metrics_filters_and_truncates [of ?ids sample_statistics]
  note t2 = get_post_metrics_filters_and_truncates [of "OneId ''urn:li:ugcPost:5''" sample_statistics]
  have a: "snd (get_post_metrics sample_statistics ?ids)
             = [take 20 (filter (sublist ''urn:li:share:'') (as_list ?ids))]"
    by (rule t1 [THEN conjunct2, THEN conjunct1, THEN mp, OF conjI, OF f ex])
  have b: "get_post_metrics sample_statistics (OneId ''urn:li:ugcPost:5'') = (None, [])"
    by (rule t2 [THEN conjunct1, THEN mp, OF disjI2, OF n])
  show ?thesis by (intro conjI f ex a q n' b)
qed

subsection \<open>Which media a publication carries\<close>

lemma created_append: "created (es @ fs) = created es @ created fs"
  by (induction es rule: created.induct) simp_all

lemma register_and_upload_created:
  "register_and_upload env n v path = (r, evs) \<Longrightarrow> created evs = []"
  by (auto simp: register_and_upload_def split: sum.splits option.splits prod.splits)

lemma register_and_upload_asset:
  "register_and_upload env n v path = (Inr urn, evs) \<Longrightarrow> asset_of env n v = Some urn"
  by (auto simp: register_and_upload_def asset_of_def split: sum.splits option.splits prod.splits)

lemma upload_images_created:
  "upload_images env n paths = (r, evs) \<Longrightarrow> created evs = []"
proof (induction paths arbitrary: n r evs)
  case Nil
  then show ?case by simp
next
  case (Cons path paths)
  obtain r1 evs1 where r1: "register_and_upload env n False path = (r1, evs1)"
    by (cases "register_and_upload env n False path")
  obtain r2 evs2 where r2: "upload_images env (Suc n) paths = (r2, evs2)"
    by (cases "upload_images env (Suc n) paths")
  have c1: "created evs1 = []" using r1 by (rule register_and_upload_created)
  have c2: "created evs2 = []" using r2 by (rule Cons.IH)
  from Cons.prems r1 r2 have "evs = evs1 \<or> evs = evs1 @ evs2"
    by (auto split: sum.splits)
  then show ?case using c1 c2 by (auto simp: created_append)
qed

lemma upload_images_assets:
  "upload_images env n paths = (Inr urns, evs) \<Longrightarrow>
     map Some urns = map (\<lambda>k. asset_of env k False) [n ..< n + length paths]"
proof (induction paths arbitrary: n urns evs)
  case Nil
  then show ?case by simp
next
  case (Cons path paths)
  from Cons.prems obtain urn evs1 urns' evs2 where
    r1: "register_and_upload env n False path = (Inr urn, evs1)"
    and r2: "upload_images env (Suc n) paths = (Inr urns', evs2)"
    and u: "urns = urn # urns'"
    by (auto split: sum.splits prod.splits)
  have "map Some urns' = map (\<lambda>k. asset_of env k False) [Suc n ..< Suc n + length paths]"
    using r2 by (rule Cons.IH)
  moreover have "asset_of env n False = Some urn" using r1 by (rule register_and_upload_asset)
  moreover have "[n ..< n + length (path # paths)] = n # [Suc n ..< Suc n + length paths]"
    by (subst upt_rec) simp
  ultimately show ?case unfolding u by (simp only: list.map)
qed

lemma post_created:
  "created (snd (post env c t imgs video))
     = (case fst (post_media env imgs video) of
          Inl e \<Rightarrow> []
        | Inr (cat, ml) \<Rightarrow> [build_payload c t cat ml])"
proof -
  have "created (snd (post_media env imgs video)) = []"
    by (auto simp: post_media_def
             split: prod.splits sum.splits
             dest: register_and_upload_created upload_images_created)
  then show ?thesis
    by (auto simp: post_def Let_def created_append split: prod.splits sum.splits)
qed

lemma post_returns_created:
  "fst (post env c t imgs video) = Inr r \<Longrightarrow> length (created (snd (post env c t imgs video))) = 1"
  unfolding post_created
  by (auto simp: post_def Let_def split: prod.splits sum.splits)

lemma post_video:
  assumes "truthy_path video"
  shows "post env c t imgs video = post env c t None video"
    and "p \<in> set (created (snd (post env c t imgs video))) \<Longrightarrow>
           shareMediaCategory p = ''VIDEO''
           \<and> (\<exists>urn. asset_of env 0 True = Some urn \<and> media p = Some [(''READY'', urn)])"
proof -
  show "post env c t imgs video = post env c t None video"
    using assms by (simp add: post_def post_media_def)
  assume "p \<in> set (created (snd (post env c t imgs video)))"
  then obtain urn evs where
    "register_and_upload env 0 True (the video) = (Inr urn, evs)"
    "p = build_payload c t ''VIDEO'' [(''READY'', urn)]"
    unfolding post_created using assms
    by (auto simp: post_media_def split: prod.splits sum.splits)
  then show "shareMediaCategory p = ''VIDEO''
           \<and> (\<exists>urn. asset_of env 0 True = Some urn \<and> media p = Some [(''READY'', urn)])"
    by (auto simp: build_payload_def dest: register_and_upload_asset)
qed

lemma post_images:
  assumes "\<not> truthy_path video" "truthy_paths imgs"
    and "p \<in> set (created (snd (post env c t imgs video)))"
  shows "shareMediaCategory p = ''IMAGE''
         \<and> (\<exists>ml. media p = Some ml
               \<and> map fst ml = replicate (length (the imgs)) ''READY''
               \<and> map (\<lambda>e. Some (snd e)) ml
                   = map (\<lambda>k. asset_of env k False) [0 ..< length (the imgs)])"
proof -
  from assms obtain urns evs where
    u: "upload_images env 0 (the imgs) = (Inr urns, evs)"
    and p: "p = build_payload c t ''IMAGE'' (map (\<lambda>urn. (''READY'', urn)) urns)"
    unfolding post_created
    by (auto simp: post_media_def split: prod.splits sum.splits)
  have a: "map Some urns = map (\<lambda>k. asset_of env k False) [0 ..< length (the imgs)]"
    using upload_images_assets [OF u] by simp
  then have "length urns = length (the imgs)"
    by (metis length_map length_upt minus_nat.diff_0)
  moreover from assms(2) have "the imgs \<noteq> []" by (cases imgs) simp_all
  ultimately have ne: "urns \<noteq> []" by auto
  let ?ml = "map (\<lambda>urn. (''READY'', urn)) urns"
  have "media p = Some ?ml" using ne by (simp add: p build_payload_def)
  moreover have "map fst ?ml = replicate (length (the imgs)) ''READY''"
    using \<open>length urns = length (the imgs)\<close> by (simp add: comp_def map_replicate_const)
  moreover have "map (\<lambda>e. Some (snd e)) ?ml
                   = map (\<lambda>k. asset_of env k False) [0 ..< length (the imgs)]"
    using a by (simp add: comp_def)
  moreover have "shareMediaCategory p = ''IMAGE''" by (simp add: p build_payload_def)
  ultimately show ?thesis by blast
qed

lemma post_text_only:
  assumes "\<not> truthy_path video" "\<not> truthy_paths imgs"
  shows "post env c t imgs video
           = (create_post env (build_payload c t ''NONE'' []),
              [CreatePost (build_payload c t ''NONE'' [])])"
    and "shareMediaCategory (build_payload c t ''NONE'' []) = ''NONE''"
    and "media (build_payload c t ''NONE'' []) = None"
proof -
  show "post env c t imgs video
           = (create_post env (build_payload c t ''NONE'' []),
              [CreatePost (build_payload c t ''NONE'' [])])"
    using assms by (simp add: post_def post_media_def Let_def)
  show "shareMediaCategory (build_payload c t ''NONE'' []) = ''NONE''"
    by (simp add: build_payload_def)
  show "media (build_payload c t ''NONE'' []) = None"
    by (simp add: build_payload_def)
qed

text \<open>
  Claim C10. In \<^verbatim>\<open>LinkedInClient.post\<close>: with a video path given, the call is
  the same as without image paths, and the publication it creates has media category
  VIDEO and the one asset registered for the video; with image paths only, the
  publication has category IMAGE and one READY media entry per image, the entry of the
  k-th image carrying the asset registered for it; with neither, the only request is
  the publication itself, with shareMediaCategory NONE and no media key. A call that
  returns has created exactly one publication.
\<close>

theorem post_chooses_media:
  "(truthy_path video \<longrightarrow>
      post env c t imgs video = post env c t None video
      \<and> (\<forall>p \<in> set (created (snd (post env c t imgs video))).
            shareMediaCategory p = ''VIDEO''
            \<and> (\<exists>urn. asset_of env 0 True = Some urn \<and> media p = Some [(''READY'', urn)])))
   \<and> (\<not> truthy_path video \<and> truthy_paths imgs \<longrightarrow>
      (\<forall>p \<in> set (created (snd (post env c t imgs video))).
            shareMediaCategory p = ''IMAGE''
            \<and> (\<exists>ml. media p = Some ml
                  \<and> map fst ml = replicate (length (the imgs)) ''READY''
                  \<and> map (\<lambda>e. Some (snd e)) ml
                      = map (\<lambda>k. asset_of env k False) [0 ..< length (the imgs)])))
   \<and> (\<not> truthy_path video \<and> \<not> truthy_paths imgs \<longrightarrow>
      snd (post env c t imgs video) = [CreatePost (build_payload c t ''NONE'' [])]
      \<and> shareMediaCategory (build_payload c t ''NONE'' []) = ''NONE''
      \<and> media (build_payload c t ''NONE'' []) = None)
   \<and> ((\<exists>r. fst (post env c t imgs video) = Inr r) \<longrightarrow>
        length (created (snd (post env c t imgs video))) = 1)"
proof (intro conjI impI ballI)
  assume "truthy_path video"
  then show "post env c t imgs video = post env c t None video" by (rule post_video(1))
next
  fix p assume "truthy_path video" "p \<in> set (created (snd (post env c t imgs video)))"
  then show "\<exists>urn. asset_of env 0 True = Some urn \<and> media p = Some [(''READY'', urn)]"
    and "shareMediaCategory p = ''VIDEO''"
    using post_video(2) by blast+
next
  fix p assume "\<not> truthy_path video \<and> truthy_paths imgs"
    "p \<in> set (created (snd (post env c t imgs video)))"
  then show "shareMediaCategory p = ''IMAGE''"
    and "\<exists>ml. media p = Some ml
                  \<and> map fst ml = replicate (length (the imgs)) ''READY''
                  \<and> map (\<lambda>e. Some (snd e)) ml
                      = map (\<lambda>k. asset_of env k False) [0 ..< length (the imgs)]"
    using post_images by blast+
next
  assume a: "\<not> truthy_path video \<and> \<not> truthy_paths imgs"
  then show "snd (post env c t imgs video) = [CreatePost (build_payload c t ''NONE'' [])]"
    by (simp add: post_text_only(1))
  show "shareMediaCategory (build_payload c t ''NONE'' []) = ''NONE''"
    by (simp add: build_payload_def)
  show "media (build_payload c t ''NONE'' []) = None"
    by (simp add: build_payload_def)
next
  assume "\<exists>r. fst (post env c t imgs video) = Inr r"
  then show "length (created (snd (post env c t imgs video))) = 1"
    using post_returns_created by blast
qed

theorem post_chooses_media_witness:
  "truthy_path (Some ''clip.mp4'')
   \<and> map shareMediaCategory (created (snd (post sample_linkedin sample_client ''hola''
        (Some [''a.png'', ''b.png'']) (Some ''clip.mp4'')))) = [''VIDEO'']
   \<and> post sample_linkedin sample_client ''hola'' (Some [''a.png'', ''b.png'']) (Some ''clip.mp4'')
       = post sample_linkedin sample_client ''hola'' None (Some ''clip.mp4'')
   \<and> \<not> truthy_path None \<and> truthy_paths (Some [''a.png'', ''b.png''])
   \<and> map media (created (snd (post sample_linkedin sample_client ''hola''
        (Some [''a.png'', ''b.png'']) None)))
       = [Some [(''READY'', ''urn:li:digitalmediaAsset:I''),
                (''READY'', ''urn:li:digitalmediaAsset:II'')]]
   \<and> \<not> truthy_paths (Some [])
   \<and> snd (post sample_linkedin sample_client ''hola'' (Some []) None)
       = [CreatePost (build_payload sample_client ''hola'' ''NONE'' [])]
   \<and> length (created (snd (post sample_linkedin sample_client ''hola'' (Some []) None))) = 1"
proof -
  have v: "truthy_path (Some ''clip.mp4'')" by simp
  have vc: "map shareMediaCategory (created (snd (post sample_linkedin sample_client ''hola''
        (Some [''a.png'', ''b.png'']) (Some ''clip.mp4'')))) = [''VIDEO'']"
    by code_simp
  have i: "\<not> truthy_path None \<and> truthy_paths (Some [''a.png'', ''b.png''])" by simp
  have im: "map media (created (snd (post sample_linkedin sample_client ''hola''
        (Some [''a.png'', ''b.png'']) None)))
       = [Some [(''READY'', ''urn:li:digitalmediaAsset:I''),
                (''READY'', ''urn:li:digitalmediaAsset:II'')]]"
    by code_simp
  have n: "\<not> truthy_path None \<and> \<not> truthy_paths (Some [])" by simp
  have r: "\<exists>r. fst (post sample_linkedin sample_client ''hola'' (Some []) None) = Inr r"
    by (simp add: post_def post_media_def sample_linkedin_def)
  note t1 = post_chooses_media
    [of "Some ''clip.mp4''" sample_linkedin sample_client "''hola''" "Some [''a.png'', ''b.png'']"]
  note t3 = post_chooses_media [of None sample_linkedin sample_client "''hola''" "Some []"]
  have e: "post sample_linkedin sample_client ''hola'' (Some [''a.png'', ''b.png'']) (Some ''clip.mp4'')
       = post sample_linkedin sample_client ''hola'' None (Some ''clip.mp4'')"
    by (rule t1 [THEN conjunct1, THEN mp, OF v, THEN conjunct1])
  have s: "snd (post sample_linkedin sample_client ''hola'' (Some []) None)
       = [CreatePost (build_payload sample_client ''hola'' ''NONE'' [])]"
    by (rule t3 [THEN conjunct2, THEN conjunct2, THEN conjunct1, THEN mp, OF n, THEN conjunct1])
  have l: "length (created (snd (post sample_linkedin sample_client ''hola'' (Some []) None))) = 1"
    by (rule t3 [THEN conjunct2, THEN conjunct2, THEN conjunct2, THEN mp, OF r])
  show ?thesis
    using v vc e i im n s l by (intro conjI) simp_all
qed

section \<open>Properties of the footer\<close>

lemma prefix_before_foreign:
  assumes "c \<notin> set m"
  shows "prefix m (xs @ c # ys) \<longleftrightarrow> prefix m xs"
proof
  assume "prefix m (xs @ c # ys)"
  then consider "prefix m xs" | us where "m = xs @ us" "prefix us (c # ys)"
    by (auto simp: prefix_append)
  then show "prefix m xs"
  proof cases
    case 1
    then show ?thesis .
  next
    case 2
    with assms have "us = []" by (cases us) auto
    with 2 show ?thesis by simp
  qed
next
  assume "prefix m xs"
  then show "prefix m (xs @ c # ys)" by (rule prefix_prefix)
qed

lemma occurrences_split:
  assumes "c \<notin> set m" "m \<noteq> []"
  shows "occurrences m (xs @ c # ys) = occurrences m xs + occurrences m ys"
proof (induction xs)
  case Nil
  have "\<not> prefix m (c # ys)" using assms by (cases m) auto
  then show ?case using assms(2) by simp
next
  case (Cons x xs)
  have "prefix m ((x # xs) @ c # ys) \<longleftrightarrow> prefix m (x # xs)"
    using assms(1) by (rule prefix_before_foreign)
  then show ?case using Cons by simp
qed

lemma occurrences_lines:
  assumes "c \<notin> set m" "m \<noteq> []"
  shows "occurrences m (concat (map (\<lambda>l. l @ [c]) ls) @ rest)
           = sum_list (map (occurrences m) ls) + occurrences m rest"
proof (induction ls)
  case Nil
  show ?case by simp
next
  case (Cons l ls)
  have "occurrences m (concat (map (\<lambda>l. l @ [c]) (l # ls)) @ rest)
          = occurrences m (l @ c # (concat (map (\<lambda>l. l @ [c]) ls) @ rest))"
    by simp
  also have "\<dots> = occurrences m l + occurrences m (concat (map (\<lambda>l. l @ [c]) ls) @ rest)"
    using assms by (rule occurrences_split)
  finally show ?case using Cons by simp
qed

lemma occurrences_append_ge:
  assumes "m \<noteq> []"
  shows "occurrences m a + occurrences m b \<le> occurrences m (a @ b)"
proof (induction a)
  case Nil
  show ?case using assms by simp
next
  case (Cons x a)
  have "prefix m (x # a) \<Longrightarrow> prefix m (x # a @ b)"
    using prefix_prefix [of m "x # a" b] by simp
  then show ?case using Cons by simp
qed

lemma py_in_occurrences:
  "m \<noteq> [] \<Longrightarrow> py_in m s \<longleftrightarrow> 0 < occurrences m s"
  by (induction s) auto

lemma marker_facts:
  "FOOTER_MARKER_TEXT \<noteq> []" "CHR 0x0A \<notin> set FOOTER_MARKER_TEXT"
  by (simp_all add: FOOTER_MARKER_TEXT_def)

lemma footer_lines_marker:
  "sum_list (map (occurrences FOOTER_MARKER_TEXT) footer_lines) = 1"
  by code_simp

lemma occurrences_around_footer:
  "occurrences FOOTER_MARKER_TEXT (a @ EMAIL_FOOTER @ b)
     = occurrences FOOTER_MARKER_TEXT a + 1 + occurrences FOOTER_MARKER_TEXT b"
proof -
  let ?body = "concat (map (\<lambda>l. l @ [CHR 0x0A]) footer_lines)"
  have "a @ EMAIL_FOOTER @ b = a @ CHR 0x0A # (?body @ b)"
    by (simp add: EMAIL_FOOTER_def)
  then have "occurrences FOOTER_MARKER_TEXT (a @ EMAIL_FOOTER @ b)
          = occurrences FOOTER_MARKER_TEXT a + occurrences FOOTER_MARKER_TEXT (?body @ b)"
    by (simp only: occurrences_split [OF marker_facts(2,1)])
  also have "occurrences FOOTER_MARKER_TEXT (?body @ b)
          = sum_list (map (occurrences FOOTER_MARKER_TEXT) footer_lines)
              + occurrences FOOTER_MARKER_TEXT b"
    by (rule occurrences_lines [OF marker_facts(2,1)])
  finally show ?thesis by (simp add: footer_lines_marker)
qed

lemma insert_before_body_split:
  "insert_before_body ins h = Some r \<Longrightarrow> \<exists>a b. h = a @ b \<and> r = a @ ins @ b"
proof (induction h arbitrary: r)
  case Nil
  then show ?case by simp
next
  case (Cons c cs)
  show ?case
  proof (cases "at_body_close (c # cs)")
    case True
    with Cons.prems have "r = ins @ c # cs" by simp
    then have "c # cs = [] @ (c # cs) \<and> r = [] @ ins @ (c # cs)" by simp
    then show ?thesis by blast
  next
    case False
    with Cons.prems obtain r' where r': "insert_before_body ins cs = Some r'" "r = c # r'"
      by auto
    from Cons.IH [OF r'(1)] obtain a b where "cs = a @ b" "r' = a @ ins @ b" by blast
    then have "c # cs = (c # a) @ b \<and> r = (c # a) @ ins @ b" using r'(2) by simp
    then show ?thesis by blast
  qed
qed

lemma ensure_footer_once_split:
  assumes "\<not> py_in FOOTER_MARKER_TEXT html"
  shows "\<exists>a b. html = a @ b \<and> ensure_footer_once html = a @ EMAIL_FOOTER @ b"
proof (cases "insert_before_body EMAIL_FOOTER html")
  case None
  with assms have "html = html @ [] \<and> ensure_footer_once html = html @ EMAIL_FOOTER @ []"
    by (simp add: ensure_footer_once_def)
  then show ?thesis by blast
next
  case (Some r)
  with assms have "ensure_footer_once html = r" by (simp add: ensure_footer_once_def)
  with insert_before_body_split [OF Some] show ?thesis by auto
qed

lemma ensure_footer_once_present:
  "py_in FOOTER_MARKER_TEXT html \<Longrightarrow> ensure_footer_once html = html"
  by (simp add: ensure_footer_once_def)

lemma ensure_footer_once_absent:
  assumes "\<not> py_in FOOTER_MARKER_TEXT html"
  shows "occurrences FOOTER_MARKER_TEXT (ensure_footer_once html) = 1"
proof -
  from ensure_footer_once_split [OF assms] obtain a b where
    ab: "html = a @ b" "ensure_footer_once html = a @ EMAIL_FOOTER @ b" by blast
  from assms have "occurrences FOOTER_MARKER_TEXT (a @ b) = 0"
    unfolding ab(1) by (simp add: py_in_occurrences marker_facts)
  with occurrences_append_ge [OF marker_facts(1), of a b]
  have "occurrences FOOTER_MARKER_TEXT a = 0" "occurrences FOOTER_MARKER_TEXT b = 0"
    by simp_all
  then show ?thesis unfolding ab(2) occurrences_around_footer by simp
qed

lemma ensure_footer_once_count:
  "occurrences FOOTER_MARKER_TEXT (ensure_footer_once html)
     = max 1 (occurrences FOOTER_MARKER_TEXT html)"
proof (cases "py_in FOOTER_MARKER_TEXT html")
  case True
  then have "0 < occurrences FOOTER_MARKER_TEXT html"
    by (simp add: py_in_occurrences marker_facts)
  then show ?thesis using True by (simp add: ensure_footer_once_present max_def)
next
  case False
  then have "occurrences FOOTER_MARKER_TEXT html = 0"
    by (simp add: py_in_occurrences marker_facts)
  then show ?thesis using ensure_footer_once_absent [OF False] by simp
qed

lemma ensure_footer_once_idem:
  "ensure_footer_once (ensure_footer_once html) = ensure_footer_once html"
proof -
  have "0 < occurrences FOOTER_MARKER_TEXT (ensure_footer_once html)"
    unfolding ensure_footer_once_count by simp
  then have "py_in FOOTER_MARKER_TEXT (ensure_footer_once html)"
    by (simp add: py_in_occurrences marker_facts)
  then show ?thesis by (rule ensure_footer_once_present)
qed

text \<open>
  Claim C4, as the code has it. \<^verbatim>\<open>ensure_footer_once\<close> returns its argument
  unchanged when it contains the footer marker, and otherwise puts the footer in (before
  the first \<^verbatim>\<open></body>\<close> or at the end). Its result therefore contains the marker
  once when the argument had none, and as often as the argument otherwise; so does the
  body assembled by \<^verbatim>\<open>send_mail_graph\<close>, which is its result on the HTML with the
  inline images. Applied to its own result it changes nothing.
\<close>

theorem footer_added_when_absent:
  "(py_in FOOTER_MARKER_TEXT html \<longrightarrow> ensure_footer_once html = html)
   \<and> (\<not> py_in FOOTER_MARKER_TEXT html \<longrightarrow>
        occurrences FOOTER_MARKER_TEXT (ensure_footer_once html) = 1
        \<and> (\<exists>a b. html = a @ b \<and> ensure_footer_once html = a @ EMAIL_FOOTER @ b))
   \<and> occurrences FOOTER_MARKER_TEXT (ensure_footer_once html)
        = max 1 (occurrences FOOTER_MARKER_TEXT html)
   \<and> ensure_footer_once (ensure_footer_once html) = ensure_footer_once html
   \<and> (message_body content_text content_html img_tags = Some body \<longrightarrow>
        (\<exists>h. insert_inline_images_before_footer
                (ensure_html_string content_text content_html) img_tags = Some h
              \<and> body = ensure_footer_once h
              \<and> occurrences FOOTER_MARKER_TEXT body = max 1 (occurrences FOOTER_MARKER_TEXT h))
        \<and> ensure_footer_once body = body)"
proof (intro conjI impI)
  assume "py_in FOOTER_MARKER_TEXT html"
  then show "ensure_footer_once html = html" by (rule ensure_footer_once_present)
next
  assume a: "\<not> py_in FOOTER_MARKER_TEXT html"
  then show "occurrences FOOTER_MARKER_TEXT (ensure_footer_once html) = 1"
    by (rule ensure_footer_once_absent)
  from a show "\<exists>a b. html = a @ b \<and> ensure_footer_once html = a @ EMAIL_FOOTER @ b"
    by (rule ensure_footer_once_split)
next
  show "occurrences FOOTER_MARKER_TEXT (ensure_footer_once html)
        = max 1 (occurrences FOOTER_MARKER_TEXT html)"
    by (rule ensure_footer_once_count)
  show "ensure_footer_once (ensure_footer_once html) = ensure_footer_once html"
    by (rule ensure_footer_once_idem)
next
  assume "message_body content_text content_html img_tags = Some body"
  then obtain h where h: "insert_inline_images_before_footer
                (ensure_html_string content_text content_html) img_tags = Some h"
      "body = ensure_footer_once h"
    by (auto simp: message_body_def)
  then show "\<exists>h. insert_inline_images_before_footer
                (ensure_html_string content_text content_html) img_tags = Some h
              \<and> body = ensure_footer_once h
              \<and> occurrences FOOTER_MARKER_TEXT body = max 1 (occurrences FOOTER_MARKER_TEXT h)"
    using ensure_footer_once_count [of h] by auto
  show "ensure_footer_once body = body"
    unfolding h(2) by (rule ensure_footer_once_idem)
qed

theorem footer_added_when_absent_witness:
  "\<not> py_in FOOTER_MARKER_TEXT ''<p>Hola</p></BODY>''
   \<and> occurrences FOOTER_MARKER_TEXT (ensure_footer_once ''<p>Hola</p></BODY>'') = 1
   \<and> ensure_footer_once ''<p>Hola</p></BODY>'' = ''<p>Hola</p>'' @ EMAIL_FOOTER @ ''</BODY>''
   \<and> py_in FOOTER_MARKER_TEXT quoted_twice
   \<and> ensure_footer_once quoted_twice = quoted_twice
   \<and> message_body (Some ''Hola'') None [] = Some (''<div>Hola</div>'' @ EMAIL_FOOTER)
   \<and> ensure_footer_once (''<div>Hola</div>'' @ EMAIL_FOOTER) = ''<div>Hola</div>'' @ EMAIL_FOOTER"
proof -
  have n: "\<not> py_in FOOTER_MARKER_TEXT ''<p>Hola</p></BODY>''" by code_simp
  have "insert_before_body ins ''<p>Hola</p></BODY>''
             = Some (''<p>Hola</p>'' @ ins @ ''</BODY>'')" for ins
    by code_simp
  then have i: "insert_before_body EMAIL_FOOTER ''<p>Hola</p></BODY>''
             = Some (''<p>Hola</p>'' @ EMAIL_FOOTER @ ''</BODY>'')" .
  have e: "ensure_footer_once ''<p>Hola</p></BODY>'' = ''<p>Hola</p>'' @ EMAIL_FOOTER @ ''</BODY>''"
    using n i by (simp add: ensure_footer_once_def)
  have q: "py_in FOOTER_MARKER_TEXT quoted_twice" by code_simp
  have nd: "\<not> py_in FOOTER_MARKER_TEXT ''<div>Hola</div>''" by code_simp
  have "insert_before_body ins ''<div>Hola</div>'' = None" for ins
    by code_simp
  then have ed: "ensure_footer_once ''<div>Hola</div>'' = ''<div>Hola</div>'' @ EMAIL_FOOTER"
    using nd by (simp add: ensure_footer_once_def)
  have "ensure_html_string (Some ''Hola'') None = ''<div>Hola</div>''"
    by (simp add: ensure_html_string_def newlines_to_br_def)
  then have m: "message_body (Some ''Hola'') None [] = Some (''<div>Hola</div>'' @ EMAIL_FOOTER)"
    using ed by (simp add: message_body_def insert_inline_images_before_footer_def)
  note t1 = footer_added_when_absent [of "''<p>Hola</p></BODY>''" None None "[]" "[]"]
  note t2 = footer_added_when_absent [of quoted_twice None None "[]" "[]"]
  note t3 = footer_added_when_absent
    [of "[]" "Some ''Hola''" None "[]" "''<div>Hola</div>'' @ EMAIL_FOOTER"]
  have c: "occurrences FOOTER_MARKER_TEXT (ensure_footer_once ''<p>Hola</p></BODY>'') = 1"
    by (rule t1 [THEN conjunct2, THEN conjunct1, THEN mp, OF n, THEN conjunct1])
  have u: "ensure_footer_once quoted_twice = quoted_twice"
    by (rule t2 [THEN conjunct1, THEN mp, OF q])
  have b: "ensure_footer_once (''<div>Hola</div>'' @ EMAIL_FOOTER) = ''<div>Hola</div>'' @ EMAIL_FOOTER"
    by (rule t3 [THEN conjunct2, THEN conjunct2, THEN conjunct2, THEN conjunct2, THEN mp,
                 OF m, THEN conjunct2])
  show ?thesis by (intro conjI n c e q u m b)
qed

text \<open>
  The claim as stated fails for the body: HTML that already holds the marker twice (a
  message quoting two earlier footers) is left as it is, with the marker twice.
\<close>

theorem body_with_two_markers_counterexample:
  "message_body None (Some quoted_twice) [] = Some quoted_twice
   \<and> occurrences FOOTER_MARKER_TEXT quoted_twice = 2"
  by code_simp

section \<open>Properties of the address list\<close>

















section \<open>Properties of the metric collection\<close>

lemma committed_unchanged:
  "committed (session_add_metric m s) = committed s"
  "committed (session_add_follower f s) = committed s"
  "committed (session_update_follower d g s) = committed s"
  by (simp_all add: session_add_metric_def session_add_follower_def session_update_follower_def)

lemma save_metrics_committed:
  "committed (session_of (save_metrics env df i ps n s)) = committed s"
proof (induction ps arbitrary: i n s)
  case Nil
  show ?case by simp
next
  case (Cons p ps)
  show ?case
  proof (cases "metrics_for df (pd_post_id p)")
    case None
    then show ?thesis using Cons [of "Suc i" n s] by simp
  next
    case (Some um)
    obtain u m where um: "um = (u, m)" by (cases um)
    show ?thesis
    proof (cases "query_raises env i")
      case True
      with Some um show ?thesis by simp
    next
      case False
      with Some um show ?thesis
        using Cons [of "Suc i" "Suc n" "session_add_metric (new_linkedin_metric env p u m) s"]
        by (simp add: committed_unchanged)
    qed
  qed
qed

lemma save_growth_committed:
  "committed (session_of (save_growth env i rows n s)) = committed s"
proof (induction rows arbitrary: i n s)
  case Nil
  show ?case by simp
next
  case (Cons row rows)
  show ?case
  proof (cases "query_raises env i")
    case True
    then show ?thesis by simp
  next
    case False
    show ?thesis
    proof (cases "find (\<lambda>r. fm_date r = gr_fecha row) (followers_table (working s))")
      case None
      with False show ?thesis
        using Cons [of "Suc i" "Suc n"] by (simp add: committed_unchanged)
    next
      case (Some existing)
      with False show ?thesis
        using Cons [of "Suc i" n] by (simp add: committed_unchanged)
    qed
  qed
qed

lemma commit_after_failed:
  assumes "commit_after env r = Failed s'"
  shows "committed s' = committed (session_of r)"
  using assms by (cases r) (simp_all add: commit_after_def split: if_splits)

lemma metrics_try_failed:
  assumes "metrics_try env s num_posts = Failed s'"
  shows "committed s' = committed s"
proof (cases "recent_posts_details env num_posts")
  case Raises
  with assms show ?thesis by (simp add: metrics_try_def)
next
  case (Returns posts_data)
  show ?thesis
  proof (cases "api_post_metrics env (map pd_post_id posts_data)")
    case Raises
    with assms Returns show ?thesis by (simp add: metrics_try_def split: if_splits)
  next
    case r: (Returns df)
    show ?thesis
    proof (cases df)
      case None
      with assms Returns r show ?thesis by (simp add: metrics_try_def split: if_splits)
    next
      case (Some df_metrics)
      with assms Returns r
      have "commit_after env (save_metrics env df_metrics 0 posts_data 0 s) = Failed s'"
        by (simp add: metrics_try_def split: if_splits)
      then show ?thesis
        using commit_after_failed save_metrics_committed by metis
    qed
  qed
qed

lemma growth_try_failed:
  assumes "growth_try env s days = Failed s'"
  shows "committed s' = committed s"
proof (cases "api_follower_growth env days")
  case Raises
  with assms show ?thesis by (simp add: growth_try_def)
next
  case (Returns df)
  show ?thesis
  proof (cases df)
    case None
    with assms Returns show ?thesis by (simp add: growth_try_def)
  next
    case (Some df_growth)
    with assms Returns
    have "commit_after env (save_growth env 0 df_growth 0 s) = Failed s'"
      by (simp add: growth_try_def split: if_splits)
    then show ?thesis
      using commit_after_failed save_growth_committed by metis
  qed
qed

lemma or_rollback_failed:
  assumes "failed_run r" and "\<And>t. r = Failed t \<Longrightarrow> committed t = c"
  shows "fst (or_rollback r) = 0 \<and> committed (snd (or_rollback r)) = c
         \<and> working (snd (or_rollback r)) = c"
  using assms by (cases r) (simp_all add: or_rollback_def session_rollback_def)

text \<open>
  Claim C6. When the \<^verbatim>\<open>try\<close> block of \<^verbatim>\<open>collect_linkedin_metrics\<close> or
  of \<^verbatim>\<open>collect_follower_growth\<close> ends by an exception (raised by the API client,
  by a query or by the commit), the function returns 0 and hands the session back rolled
  back: the committed tables are those it started with, and nothing of the open
  transaction is left.
\<close>

theorem collect_rolls_back_on_error:
  "(failed_run (metrics_try env s num_posts) \<longrightarrow>
      fst (collect_linkedin_metrics env s num_posts) = 0
      \<and> committed (snd (collect_linkedin_metrics env s num_posts)) = committed s
      \<and> working (snd (collect_linkedin_metrics env s num_posts)) = committed s)
   \<and> (failed_run (growth_try env s days) \<longrightarrow>
      fst (collect_follower_growth env s days) = 0
      \<and> committed (snd (collect_follower_growth env s days)) = committed s
      \<and> working (snd (collect_follower_growth env s days)) = committed s)"
proof (intro conjI impI)
  assume f: "failed_run (metrics_try env s num_posts)"
  from or_rollback_failed [OF f, of "committed s"] metrics_try_failed
  show "fst (collect_linkedin_metrics env s num_posts) = 0"
    and "committed (snd (collect_linkedin_metrics env s num_posts)) = committed s"
    and "working (snd (collect_linkedin_metrics env s num_posts)) = committed s"
    unfolding collect_linkedin_metrics_def by blast+
next
  assume f: "failed_run (growth_try env s days)"
  from or_rollback_failed [OF f, of "committed s"] growth_try_failed
  show "fst (collect_follower_growth env s days) = 0"
    and "committed (snd (collect_follower_growth env s days)) = committed s"
    and "working (snd (collect_follower_growth env s days)) = committed s"
    unfolding collect_follower_growth_def by blast+
qed

theorem collect_rolls_back_on_error_witness:
  "failed_run (metrics_try failing_commit_env sample_session 30)
   \<and> failed_run (growth_try failing_commit_env sample_session 7)
   \<and> length (metrics_table (working (session_of
        (metrics_try failing_commit_env sample_session 30)))) = 1
   \<and> collect_linkedin_metrics failing_commit_env sample_session 30 = (0, sample_session)
   \<and> collect_follower_growth failing_commit_env sample_session 7 = (0, sample_session)"
proof -
  have m: "failed_run (metrics_try failing_commit_env sample_session 30)" by code_simp
  have g: "failed_run (growth_try failing_commit_env sample_session 7)" by code_simp
  have l: "length (metrics_table (working (session_of
        (metrics_try failing_commit_env sample_session 30)))) = 1"
    by code_simp
  have w: "working sample_session = committed sample_session"
    by (simp add: sample_session_def Let_def)
  note t = collect_rolls_back_on_error [of failing_commit_env sample_session 30 7]
  have a: "fst (collect_linkedin_metrics failing_commit_env sample_session 30) = 0
      \<and> committed (snd (collect_linkedin_metrics failing_commit_env sample_session 30))
          = committed sample_session
      \<and> working (snd (collect_linkedin_metrics failing_commit_env sample_session 30))
          = committed sample_session"
    by (rule t [THEN conjunct1, THEN mp, OF m])
  have b: "fst (collect_follower_growth failing_commit_env sample_session 7) = 0
      \<and> committed (snd (collect_follower_growth failing_commit_env sample_session 7))
          = committed sample_session
      \<and> working (snd (collect_follower_growth failing_commit_env sample_session 7))
          = committed sample_session"
    by (rule t [THEN conjunct2, THEN mp, OF g])
  have eq: "\<And>r. fst r = 0 \<and> committed (snd r) = committed sample_session
                  \<and> working (snd r) = committed sample_session
                \<Longrightarrow> r = (0::nat, sample_session)"
    using w by (auto simp: prod_eq_iff)
  show ?thesis by (intro conjI m g l eq [OF a] eq [OF b])
qed

end
